theory Spec2Isabelle
  imports Complex_Main
begin

section \<open>Data model of FESTIM/meshing.py\<close>

text \<open>
  Scalars (vertex coordinates, the domain size, refinement points) are modelled as
  \<^typ>\<open>real\<close>; Python's unbounded integers as \<^typ>\<open>int\<close>; entity tags
  (the \<^verbatim>\<open>size_t\<close> values of a MeshFunction) as \<^typ>\<open>nat\<close>.

  A one-dimensional mesh is the list of its vertex coordinates (vertex \<open>i\<close> is
  position \<open>i\<close> of the list; in 1D the facets are the vertices) and the list of its
  cells, each cell a pair of vertex indices.
\<close>

record mesh =
  coordinates :: "real list"
  cells :: "(nat \<times> nat) list"

datatype error =
    KeyError string
  | IndexError
  | TypeError
  | RuntimeError
  | ValueError string

text \<open>\<^verbatim>\<open>len(mesh.cells())\<close>\<close>

definition num_cells :: "mesh \<Rightarrow> nat" where
  "num_cells m = length (cells m)"

text \<open>\<^verbatim>\<open>cell.midpoint().x()\<close> for the cell with vertex indices \<open>(a, b)\<close>.\<close>

definition midpoint :: "mesh \<Rightarrow> nat \<times> nat \<Rightarrow> real" where
  "midpoint m c = (coordinates m ! fst c + coordinates m ! snd c) / 2"


section \<open>generate_mesh_from_vertices\<close>

text \<open>
  Modelled from the spec: \<^verbatim>\<open>np.unique\<close> is a NumPy function, not part of the source
  file. The spec (4.2, from explicit vertices): the input is de-duplicated and sorted
  ascending. The source sorts the result once more with Python's \<^verbatim>\<open>sorted\<close>.
\<close>

definition np_unique :: "real list \<Rightarrow> real list" where
  "np_unique xs = sort (remdups xs)"

definition sorted_py :: "real list \<Rightarrow> real list" where
  "sorted_py xs = sort xs"

text \<open>
  Modelled from the spec: the MeshEditor of FEniCS is not part of the source file. The
  spec (3, Mesh) describes a mesh as the sequence of its vertex coordinates and the
  sequence of its cells, each a pair of vertex indices. \<^verbatim>\<open>init_vertices\<close> and
  \<^verbatim>\<open>init_cells\<close> allocate the two sequences, \<^verbatim>\<open>add_vertex\<close> and \<^verbatim>\<open>add_cell\<close> fill one slot.
  The count passed to \<^verbatim>\<open>init_cells\<close> is an unsigned integer on the library side, so a
  negative Python integer is rejected there with a TypeError.
\<close>

definition init_vertices :: "nat \<Rightarrow> mesh \<Rightarrow> mesh" where
  "init_vertices n m = m\<lparr>coordinates := replicate n 0\<rparr>"

definition init_cells :: "int \<Rightarrow> mesh \<Rightarrow> error + mesh" where
  "init_cells n m = (if n < 0 then Inl TypeError else Inr (m\<lparr>cells := replicate (nat n) (0, 0)\<rparr>))"

definition add_vertex :: "nat \<Rightarrow> real \<Rightarrow> mesh \<Rightarrow> mesh" where
  "add_vertex i x m = m\<lparr>coordinates := (coordinates m)[i := x]\<rparr>"

definition add_cell :: "nat \<Rightarrow> nat \<times> nat \<Rightarrow> mesh \<Rightarrow> mesh" where
  "add_cell j c m = m\<lparr>cells := (cells m)[j := c]\<rparr>"

definition Mesh :: mesh where
  "Mesh = \<lparr>coordinates = [], cells = []\<rparr>"

definition generate_mesh_from_vertices :: "real list \<Rightarrow> error + mesh" where
  "generate_mesh_from_vertices vs =
     (let vertices = sorted_py (np_unique vs);
          nb_points = length vertices;
          nb_cells = int nb_points - 1;
          mesh = init_vertices nb_points Mesh
      in case init_cells nb_cells mesh of
           Inl e \<Rightarrow> Inl e
         | Inr mesh \<Rightarrow>
             (let mesh = fold (\<lambda>i. add_vertex i (vertices ! i)) [0..<nb_points] mesh;
                  mesh = fold (\<lambda>j. add_cell j (j, j + 1)) [0..<nat nb_cells] mesh
              in Inr mesh))"



section \<open>mesh_and_refine\<close>

text \<open>One entry of \<^verbatim>\<open>mesh_parameters["refinements"]\<close>: the keys \<^verbatim>\<open>"cells"\<close> and \<^verbatim>\<open>"x"\<close>.\<close>

record refinement =
  ref_cells :: int
  ref_x :: real

text \<open>
  A value stored under a configuration key whose type the source tests with
  \<^verbatim>\<open>isinstance\<close>: a mesh, a \<^verbatim>\<open>size_t\<close> MeshFunction (its array of tags), or anything else.
\<close>

datatype py_obj =
    MeshObj (the_mesh: mesh)
  | MeshFunctionObj (the_values: "nat list")
  | OtherObj

text \<open>
  The dictionary \<^verbatim>\<open>mesh_parameters\<close>: every key may be absent (\<open>None\<close>). The key
  \<^verbatim>\<open>"mesh"\<close> is the field \<open>mesh_obj\<close> and the key \<^verbatim>\<open>"size"\<close> the field \<open>size_param\<close>.
\<close>

record mesh_parameters =
  mesh_file :: "string option"
  mesh_obj :: "py_obj option"
  vertices :: "real list option"
  initial_number_of_cells :: "int option"
  size_param :: "real option"
  refinements :: "refinement list option"
  cells_file :: "string option"
  facets_file :: "string option"
  meshfunction_cells :: "py_obj option"
  meshfunction_facets :: "py_obj option"

text \<open>
  Modelled from the spec: \<^verbatim>\<open>IntervalMesh\<close> is a FEniCS constructor, not part of the
  source file. The spec (4.2, uniform mesh): given a positive cell count and a positive
  size, the mesh has \<open>count + 1\<close> evenly spaced vertices over \<open>[0, size]\<close>; a
  non-positive parameter is a configuration error.
\<close>

definition IntervalMesh :: "int \<Rightarrow> real \<Rightarrow> real \<Rightarrow> error + mesh" where
  "IntervalMesh n a b =
     (if n \<le> 0 \<or> b - a \<le> 0 then Inl RuntimeError
      else Inr \<lparr>coordinates = map (\<lambda>i. a + (b - a) / real_of_int n * real i) [0..<nat n + 1],
                cells = map (\<lambda>j. (j, j + 1)) [0..<nat n]\<rparr>)"

text \<open>
  Modelled from the spec: \<^verbatim>\<open>refine\<close> is a FEniCS function, not part of the source file.
  The spec (4.3, step 2b): each marked cell is replaced by two cells of half its length,
  all marked cells in the same pass; unmarked cells pass through unchanged. The spec does
  not say where the new midpoint vertices are stored: here they are appended after the
  existing ones (\<open>n\<close> is the index of the next new vertex), and the cells keep their
  order. \<open>cell_markers\<close> has one entry per cell.
\<close>

fun bisect_cells ::
  "real list \<Rightarrow> nat \<Rightarrow> ((nat \<times> nat) \<times> bool) list \<Rightarrow> (nat \<times> nat) list \<times> real list" where
  "bisect_cells vs n [] = ([], [])"
| "bisect_cells vs n (((a, b), marked) # rest) =
     (if marked
      then (let (cs, ws) = bisect_cells vs (Suc n) rest
            in ((a, n) # (n, b) # cs, (vs ! a + vs ! b) / 2 # ws))
      else (let (cs, ws) = bisect_cells vs n rest
            in ((a, b) # cs, ws)))"

definition refine :: "mesh \<Rightarrow> bool list \<Rightarrow> mesh" where
  "refine m cell_markers =
     (let (cs, ws) = bisect_cells (coordinates m) (length (coordinates m))
                       (zip (cells m) cell_markers)
      in \<lparr>coordinates = coordinates m @ ws, cells = cs\<rparr>)"

text \<open>
  Lines 157 to 162: a fresh boolean MeshFunction, all \<open>False\<close>, set to \<open>True\<close> on every
  cell whose midpoint lies strictly left of the refinement point.
\<close>

definition mark_cells :: "mesh \<Rightarrow> real \<Rightarrow> bool list" where
  "mark_cells m refinement_point = map (\<lambda>cell. midpoint m cell < refinement_point) (cells m)"

text \<open>The body of the \<^verbatim>\<open>while\<close> loop: mark, then refine.\<close>

definition refine_step :: "real \<Rightarrow> mesh \<Rightarrow> mesh" where
  "refine_step refinement_point m = refine m (mark_cells m refinement_point)"

text \<open>
  The \<^verbatim>\<open>while\<close> loop of lines 155 to 163. It has no iteration bound, so it is a partial
  function: \<open>None\<close> is the loop that never leaves.
\<close>

partial_function (option) refine_loop :: "int \<Rightarrow> int \<Rightarrow> real \<Rightarrow> mesh \<Rightarrow> mesh option" where
  "refine_loop initial_nb_cells nb_cells_ref refinement_point m =
     (if int (num_cells m) < initial_nb_cells + nb_cells_ref
      then refine_loop initial_nb_cells nb_cells_ref refinement_point
             (refine_step refinement_point m)
      else Some m)"

declare refine_loop.simps [code]

text \<open>
  The \<^verbatim>\<open>for\<close> loop over the refinements (lines 150 to 166); after each one the
  baseline \<^verbatim>\<open>initial_number_of_cells\<close> becomes the current number of cells.
\<close>

fun refine_all :: "refinement list \<Rightarrow> int \<Rightarrow> mesh \<Rightarrow> mesh option" where
  "refine_all [] initial_nb_cells m = Some m"
| "refine_all (r # rs) initial_nb_cells m =
     (case refine_loop initial_nb_cells (ref_cells r) (ref_x r) m of
        None \<Rightarrow> None
      | Some m' \<Rightarrow> refine_all rs (int (num_cells m')) m')"

definition mesh_and_refine :: "mesh_parameters \<Rightarrow> (error + mesh) option" where
  "mesh_and_refine p =
     (case initial_number_of_cells p of
        None \<Rightarrow> Some (Inl (KeyError ''initial_number_of_cells''))
      | Some n \<Rightarrow>
          (case size_param p of
             None \<Rightarrow> Some (Inl (KeyError ''size''))
           | Some domain_size \<Rightarrow>
               (case IntervalMesh n 0 domain_size of
                  Inl e \<Rightarrow> Some (Inl e)
                | Inr m \<Rightarrow>
                    (case refinements p of
                       None \<Rightarrow> Some (Inr m)
                     | Some rs \<Rightarrow> map_option Inr (refine_all rs n m)))))"


section \<open>create_mesh\<close>

text \<open>
  \<open>read_mesh\<close> stands for \<^verbatim>\<open>XDMFFile(path).read(mesh)\<close>, the external loader.
  The result is \<open>None\<close> when the call does not return.
\<close>

definition create_mesh ::
  "(string \<Rightarrow> error + mesh) \<Rightarrow> mesh_parameters \<Rightarrow> (error + mesh) option" where
  "create_mesh read_mesh p =
     (if mesh_file p \<noteq> None then Some (read_mesh (the (mesh_file p)))
      else if mesh_obj p \<noteq> None \<and> is_MeshObj (the (mesh_obj p))
        then Some (Inr (the_mesh (the (mesh_obj p))))
      else if vertices p \<noteq> None then Some (generate_mesh_from_vertices (the (vertices p)))
      else mesh_and_refine p)"


section \<open>check_borders\<close>

text \<open>
  A number written in the configuration is a Python \<^verbatim>\<open>int\<close> or a \<^verbatim>\<open>float\<close>. The two
  compare by value under \<^verbatim>\<open>==\<close>, \<^verbatim>\<open><\<close> and in sorting, but the identity test
  \<^verbatim>\<open>x is not 0\<close> of line 231 is false only for the integer object \<open>0\<close>.
\<close>

datatype py_num = PyInt int | PyFloat real

fun num_val :: "py_num \<Rightarrow> real" where
  "num_val (PyInt i) = real_of_int i"
| "num_val (PyFloat x) = x"

fun is_not_int_zero :: "py_num \<Rightarrow> bool" where
  "is_not_int_zero (PyInt i) = (i \<noteq> 0)"
| "is_not_int_zero (PyFloat x) = True"

record material =
  mat_id :: nat
  borders :: "py_num \<times> py_num"

text \<open>The loop of lines 233 to 235 over adjacent pairs of the sorted intervals.\<close>

fun borders_match :: "(py_num \<times> py_num) list \<Rightarrow> bool" where
  "borders_match (b # c # rest) = (num_val (snd b) = num_val (fst c) \<and> borders_match (c # rest))"
| "borders_match _ = True"

definition check_borders :: "real \<Rightarrow> material list \<Rightarrow> error + bool" where
  "check_borders domain_size materials =
     (let all_borders = sort_key (\<lambda>b. num_val (fst b)) (map borders materials)
      in if all_borders = [] then Inl IndexError
         else if is_not_int_zero (fst (hd all_borders))
           then Inl (ValueError ''Borders don't begin at zero'')
         else if \<not> borders_match all_borders
           then Inl (ValueError ''Borders don't match to each other'')
         else if num_val (snd (last all_borders)) \<noteq> domain_size
           then Inl (ValueError ''Borders don't match with size'')
         else Inr True)"


section \<open>subdomains_1D and subdomains\<close>

text \<open>
  Modelled from the spec: \<^verbatim>\<open>near\<close> is a FEniCS function, not part of the source file.
  The spec (4.5, facet tags): a position coincides with another within a small numeric
  tolerance. The tolerance \<open>eps\<close>, a constant of the library, is a parameter here.
\<close>

definition near :: "real \<Rightarrow> real \<Rightarrow> real \<Rightarrow> bool" where
  "near eps x x0 = (x0 - eps \<le> x \<and> x \<le> x0 + eps)"

text \<open>
  The objects \<^verbatim>\<open>subdomains_1D\<close> works on: the mesh it is given and the two marker
  arrays it allocates and fills. Every statement of the function is a step on this state.
\<close>

record tagger_state =
  ts_mesh :: mesh
  volume_markers :: "nat list"
  surface_markers :: "nat list"

text \<open>The body of the inner loop (lines 190 to 195) for cell number \<open>j\<close>.\<close>

definition mark_cell :: "material list \<Rightarrow> nat \<Rightarrow> material \<Rightarrow> tagger_state \<Rightarrow> tagger_state" where
  "mark_cell mats j material st =
     (if length mats = 1
        then st\<lparr>volume_markers := (volume_markers st)[j := mat_id material]\<rparr>
      else if midpoint (ts_mesh st) (cells (ts_mesh st) ! j) \<ge> num_val (fst (borders material))
              \<and> midpoint (ts_mesh st) (cells (ts_mesh st) ! j) \<le> num_val (snd (borders material))
        then st\<lparr>volume_markers := (volume_markers st)[j := mat_id material]\<rparr>
      else st)"

text \<open>The body of the facet loop (lines 201 to 207) for facet number \<open>i\<close>.\<close>

definition mark_facet :: "real \<Rightarrow> real \<Rightarrow> nat \<Rightarrow> tagger_state \<Rightarrow> tagger_state" where
  "mark_facet eps domain_size i st =
     (let x0 = coordinates (ts_mesh st) ! i;
          st = st\<lparr>surface_markers := (surface_markers st)[i := 0]\<rparr>;
          st = (if near eps x0 0
                then st\<lparr>surface_markers := (surface_markers st)[i := 1]\<rparr> else st);
          st = (if near eps x0 domain_size
                then st\<lparr>surface_markers := (surface_markers st)[i := 2]\<rparr> else st)
      in st)"

text \<open>Lines 187 to 207 as one pass over the state.\<close>

definition tagging_pass :: "real \<Rightarrow> material list \<Rightarrow> real \<Rightarrow> tagger_state \<Rightarrow> tagger_state" where
  "tagging_pass eps mats domain_size st =
     (let st = st\<lparr>volume_markers := replicate (num_cells (ts_mesh st)) 0\<rparr>;
          st = fold (\<lambda>j. fold (mark_cell mats j) mats) [0..<num_cells (ts_mesh st)] st;
          st = st\<lparr>surface_markers := replicate (length (coordinates (ts_mesh st))) 0\<rparr>;
          st = fold (mark_facet eps domain_size) [0..<length (coordinates (ts_mesh st))] st
      in st)"

text \<open>
  The function itself: called with a mesh, it returns the two arrays. The marker fields of
  the starting state are placeholders; the pass allocates both arrays anew.
\<close>

definition subdomains_1D :: "real \<Rightarrow> mesh \<Rightarrow> material list \<Rightarrow> real \<Rightarrow> nat list \<times> nat list" where
  "subdomains_1D eps m mats domain_size =
     (let st = tagging_pass eps mats domain_size
                 \<lparr>ts_mesh = m, volume_markers = [], surface_markers = []\<rparr>
      in (volume_markers st, surface_markers st))"

text \<open>\<^verbatim>\<open>max\<close> of a Python list; the empty list raises ValueError.\<close>

definition max_py :: "real list \<Rightarrow> error + real" where
  "max_py xs = (if xs = [] then Inl (ValueError ''max() arg is an empty sequence'')
                else Inr (fold max (tl xs) (hd xs)))"

record parameters =
  mesh_parameters :: mesh_parameters
  materials :: "material list"

text \<open>
  \<open>read_subdomains_from_xdmf\<close> reads both tag arrays from files and is a parameter.
\<close>

definition subdomains ::
  "real \<Rightarrow> (mesh \<Rightarrow> string \<Rightarrow> string \<Rightarrow> error + nat list \<times> nat list) \<Rightarrow>
   mesh \<Rightarrow> parameters \<Rightarrow> error + py_obj \<times> py_obj" where
  "subdomains eps read_subdomains_from_xdmf m parameters =
     (let mp = mesh_parameters parameters in
      if cells_file mp \<noteq> None then
        (case facets_file mp of
           None \<Rightarrow> Inl (KeyError ''facets_file'')
         | Some ff \<Rightarrow>
             (case read_subdomains_from_xdmf m (the (cells_file mp)) ff of
                Inl e \<Rightarrow> Inl e
              | Inr (vm, sm) \<Rightarrow> Inr (MeshFunctionObj vm, MeshFunctionObj sm)))
      else if meshfunction_cells mp \<noteq> None \<and> is_MeshFunctionObj (the (meshfunction_cells mp)) then
        (case meshfunction_facets mp of
           None \<Rightarrow> Inl (KeyError ''meshfunction_facets'')
         | Some sf \<Rightarrow> Inr (the (meshfunction_cells mp), sf))
      else
        (case (if vertices mp \<noteq> None then max_py (the (vertices mp))
               else (case size_param mp of
                       None \<Rightarrow> Inl (KeyError ''size'')
                     | Some s \<Rightarrow> Inr s)) of
           Inl e \<Rightarrow> Inl e
         | Inr domain_size \<Rightarrow>
             (case (if length (materials parameters) > 1
                    then check_borders domain_size (materials parameters) else Inr True) of
                Inl e \<Rightarrow> Inl e
              | Inr ok \<Rightarrow>
                  (let (vm, sm) = subdomains_1D eps m (materials parameters) domain_size
                   in Inr (MeshFunctionObj vm, MeshFunctionObj sm)))))"


section \<open>Auxiliary notions for the statements and proofs\<close>

text \<open>
  The configuration of the generate-and-refine path that carries only the keys
  \<^verbatim>\<open>initial_number_of_cells\<close>, \<^verbatim>\<open>size\<close> and \<^verbatim>\<open>refinements\<close>.
\<close>

definition refine_config :: "int \<Rightarrow> real \<Rightarrow> refinement list \<Rightarrow> mesh_parameters" where
  "refine_config n s rs =
     \<lparr>mesh_file = None, mesh_obj = None, vertices = None,
      initial_number_of_cells = Some n, size_param = Some s, refinements = Some rs,
      cells_file = None, facets_file = None,
      meshfunction_cells = None, meshfunction_facets = None\<rparr>"

text \<open>
  Some cell of the mesh has in-range vertex indices, its left end not right of its right
  end, and its midpoint at most \<open>B\<close>.
\<close>

definition has_cell_left_of :: "real \<Rightarrow> mesh \<Rightarrow> bool" where
  "has_cell_left_of B m =
     (\<exists>a b. (a, b) \<in> set (cells m) \<and> a < length (coordinates m) \<and> b < length (coordinates m)
        \<and> coordinates m ! a \<le> coordinates m ! b \<and> midpoint m (a, b) \<le> B)"

text \<open>The midpoint \<open>x\<close> lies in the border interval of the material, both ends included.\<close>

definition covers :: "material \<Rightarrow> real \<Rightarrow> bool" where
  "covers material x = (num_val (fst (borders material)) \<le> x \<and> x \<le> num_val (snd (borders material)))"

text \<open>
  What the inner loop leaves in the slot of one cell with midpoint \<open>x\<close>, started from the
  tag \<open>t\<close>, and what the facet loop leaves in the slot of a facet at \<open>x\<close>.
\<close>

definition cell_tag :: "material list \<Rightarrow> real \<Rightarrow> material list \<Rightarrow> nat \<Rightarrow> nat" where
  "cell_tag mats x ms t =
     fold (\<lambda>material t. if length mats = 1 \<or> covers material x then mat_id material else t) ms t"

definition facet_tag :: "real \<Rightarrow> real \<Rightarrow> real \<Rightarrow> nat" where
  "facet_tag eps domain_size x = (if near eps x domain_size then 2 else if near eps x 0 then 1 else 0)"


section \<open>Properties of generate_mesh_from_vertices\<close>

lemma sorted_py_np_unique:
  "sorted_py (np_unique vs) = sort (remdups vs)"
  by (simp add: sorted_py_def np_unique_def sorted_sort_id)

lemma add_vertex_sel:
  "coordinates (add_vertex i x m) = (coordinates m)[i := x]"
  "cells (add_vertex i x m) = cells m"
  by (simp_all add: add_vertex_def)

lemma add_cell_sel:
  "cells (add_cell j c m) = (cells m)[j := c]"
  "coordinates (add_cell j c m) = coordinates m"
  by (simp_all add: add_cell_def)

lemma fold_add_vertex_cells:
  "cells (fold (\<lambda>i. add_vertex i (f i)) is m) = cells m"
  by (induction "is" arbitrary: m) (simp_all add: add_vertex_sel)

lemma fold_add_cell_coordinates:
  "coordinates (fold (\<lambda>j. add_cell j (g j)) js m) = coordinates m"
  by (induction js arbitrary: m) (simp_all add: add_cell_sel)

lemma fold_add_vertex_coordinates:
  "k \<le> length (coordinates m) \<Longrightarrow>
   coordinates (fold (\<lambda>i. add_vertex i (f i)) [0..<k] m) =
     map f [0..<k] @ drop k (coordinates m)"
proof (induction k)
  case 0
  then show ?case by simp
next
  case (Suc k)
  then have k: "k < length (coordinates m)" by simp
  have "coordinates (fold (\<lambda>i. add_vertex i (f i)) [0..<Suc k] m) =
        (map f [0..<k] @ drop k (coordinates m))[k := f k]"
    using Suc by (simp add: add_vertex_sel)
  also have "\<dots> = map f [0..<k] @ (drop k (coordinates m))[0 := f k]"
    by (simp add: list_update_append)
  also have "drop k (coordinates m) = coordinates m ! k # drop (Suc k) (coordinates m)"
    using k by (simp add: Cons_nth_drop_Suc)
  finally show ?case by simp
qed

lemma fold_add_cell_cells:
  "k \<le> length (cells m) \<Longrightarrow>
   cells (fold (\<lambda>j. add_cell j (g j)) [0..<k] m) =
     map g [0..<k] @ drop k (cells m)"
proof (induction k)
  case 0
  then show ?case by simp
next
  case (Suc k)
  then have k: "k < length (cells m)" by simp
  have "cells (fold (\<lambda>j. add_cell j (g j)) [0..<Suc k] m) =
        (map g [0..<k] @ drop k (cells m))[k := g k]"
    using Suc by (simp add: add_cell_sel)
  also have "\<dots> = map g [0..<k] @ (drop k (cells m))[0 := g k]"
    by (simp add: list_update_append)
  also have "drop k (cells m) = cells m ! k # drop (Suc k) (cells m)"
    using k by (simp add: Cons_nth_drop_Suc)
  finally show ?case by simp
qed

lemma generate_mesh_from_vertices_eq:
  assumes "vs \<noteq> []"
  shows "generate_mesh_from_vertices vs =
         Inr \<lparr>coordinates = sort (remdups vs),
              cells = map (\<lambda>j. (j, j + 1)) [0..<length (remdups vs) - 1]\<rparr>"
proof -
  let ?V = "sort (remdups vs)"
  have len: "length ?V = length (remdups vs)" by simp
  have pos: "0 < length (remdups vs)" using assms by (cases vs) auto
  have nat_eq: "nat (int (length (remdups vs)) - 1) = length (remdups vs) - 1"
    by simp
  have ic: "init_cells (int (length ?V) - 1) (init_vertices (length ?V) Mesh) =
            Inr \<lparr>coordinates = replicate (length (remdups vs)) 0,
                 cells = replicate (length (remdups vs) - 1) (0, 0)\<rparr>"
    using pos by (simp add: init_cells_def init_vertices_def Mesh_def nat_eq)
  let ?m0 = "\<lparr>coordinates = replicate (length (remdups vs)) (0::real),
                cells = replicate (length (remdups vs) - 1) (0::nat, 0::nat)\<rparr>"
  let ?m1 = "fold (\<lambda>i. add_vertex i (?V ! i)) [0..<length (remdups vs)] ?m0"
  let ?m2 = "fold (\<lambda>j. add_cell j (j, j + 1)) [0..<length (remdups vs) - 1] ?m1"
  have c1: "coordinates ?m1 = ?V"
    using fold_add_vertex_coordinates [of "length (remdups vs)" ?m0 "\<lambda>i. ?V ! i"]
    by (simp add: map_nth [of ?V, simplified])
  have k1: "cells ?m1 = replicate (length (remdups vs) - 1) (0, 0)"
    by (simp add: fold_add_vertex_cells)
  have c2: "coordinates ?m2 = ?V"
    using c1 by (simp add: fold_add_cell_coordinates)
  have k2: "cells ?m2 = map (\<lambda>j. (j, j + 1)) [0..<length (remdups vs) - 1]"
    using fold_add_cell_cells [of "length (remdups vs) - 1" ?m1 "\<lambda>j. (j, j + 1)"] k1
    by simp
  have "?m2 = \<lparr>coordinates = ?V, cells = map (\<lambda>j. (j, j + 1)) [0..<length (remdups vs) - 1]\<rparr>"
    using c2 k2 by (cases ?m2) simp
  then show ?thesis
    unfolding generate_mesh_from_vertices_def sorted_py_np_unique Let_def
    using ic by (simp add: nat_eq)
qed

text \<open>
  C3. For every non-empty input sequence of vertex scalars with \<open>N\<close> distinct values
  the mesh built from explicit vertices has exactly \<open>N\<close> vertices, in strictly
  increasing order and carrying exactly the input's values, and exactly \<open>N - 1\<close>
  cells, cell \<open>j\<close> connecting vertex \<open>j\<close> and vertex \<open>j + 1\<close>; a single distinct
  value gives a mesh with zero cells.
\<close>

theorem generate_mesh_from_vertices_shape:
  assumes "vs \<noteq> []"
  shows "\<exists>m. generate_mesh_from_vertices vs = Inr m
           \<and> length (coordinates m) = card (set vs)
           \<and> set (coordinates m) = set vs
           \<and> sorted_wrt (<) (coordinates m)
           \<and> length (cells m) = card (set vs) - 1
           \<and> (\<forall>j < length (cells m). cells m ! j = (j, j + 1))
           \<and> (card (set vs) = 1 \<longrightarrow> cells m = [])"
proof -
  let ?m = "\<lparr>coordinates = sort (remdups vs),
             cells = map (\<lambda>j. (j, j + 1)) [0..<length (remdups vs) - 1]\<rparr>"
  have card: "length (remdups vs) = card (set vs)"
    by (simp add: length_remdups_card_conv)
  have "distinct (sort (remdups vs))" by simp
  moreover have "sorted (sort (remdups vs))" by simp
  ultimately have strict: "sorted_wrt (<) (sort (remdups vs))"
    by (simp add: strict_sorted_iff)
  have "generate_mesh_from_vertices vs = Inr ?m"
    using assms by (rule generate_mesh_from_vertices_eq)
  moreover have "length (coordinates ?m) = card (set vs)" using card by simp
  moreover have "set (coordinates ?m) = set vs" by simp
  moreover have "sorted_wrt (<) (coordinates ?m)" using strict by simp
  moreover have "length (cells ?m) = card (set vs) - 1" using card by simp
  moreover have "\<forall>j < length (cells ?m). cells ?m ! j = (j, j + 1)" by simp
  moreover have "card (set vs) = 1 \<longrightarrow> cells ?m = []" using card by simp
  ultimately show ?thesis by blast
qed

theorem generate_mesh_from_vertices_shape_witness:
  "generate_mesh_from_vertices [2, 0, 1, 2, 0] =
     Inr \<lparr>coordinates = [0, 1, 2], cells = [(0, 1), (1, 2)]\<rparr>
   \<and> (\<exists>m. generate_mesh_from_vertices [7] = Inr m \<and> cells m = [])"
proof -
  have "generate_mesh_from_vertices [2, 0, 1, 2, 0] =
          Inr \<lparr>coordinates = [0, 1, 2], cells = [(0, 1), (1, 2)]\<rparr>"
    by (simp add: generate_mesh_from_vertices_def sorted_py_def np_unique_def
        init_vertices_def init_cells_def add_vertex_def add_cell_def Mesh_def Let_def
        upt_rec numeral_nat)
  moreover have "\<exists>m. generate_mesh_from_vertices [7] = Inr m \<and> cells m = []"
    using generate_mesh_from_vertices_shape [of "[7]"] by auto
  ultimately show ?thesis by blast
qed


section \<open>Properties of the refinement loop\<close>

lemma bisect_cells_length:
  "bisect_cells vs n czs = (cs, ws) \<Longrightarrow>
   length ws = length (filter snd czs) \<and> length cs = length czs + length ws"
proof (induction czs arbitrary: n cs ws)
  case Nil
  then show ?case by simp
next
  case (Cons cz czs)
  obtain a b k where cz: "cz = ((a, b), k)" by (metis surj_pair)
  show ?case
  proof (cases k)
    case True
    obtain cs' ws' where r: "bisect_cells vs (Suc n) czs = (cs', ws')" by fastforce
    from Cons.IH [OF r] Cons.prems r cz True show ?thesis by auto
  next
    case False
    obtain cs' ws' where r: "bisect_cells vs n czs = (cs', ws')" by fastforce
    from Cons.IH [OF r] Cons.prems r cz False show ?thesis by auto
  qed
qed

lemma bisect_cells_unmarked:
  "\<forall>cz \<in> set czs. \<not> snd cz \<Longrightarrow> bisect_cells vs n czs = (map fst czs, [])"
  by (induction czs) auto

lemma zip_mark_cells:
  "zip (cells m) (mark_cells m x) = map (\<lambda>c. (c, midpoint m c < x)) (cells m)"
  by (simp add: mark_cells_def zip_map2 zip_same_conv_map)

lemma num_cells_refine_step:
  "num_cells (refine_step x m) =
     num_cells m + length (filter (\<lambda>cell. midpoint m cell < x) (cells m))"
proof -
  obtain cs ws where r: "bisect_cells (coordinates m) (length (coordinates m))
      (zip (cells m) (mark_cells m x)) = (cs, ws)" by fastforce
  note z = zip_mark_cells [of m x]
  have "length (filter snd (zip (cells m) (mark_cells m x))) =
        length (filter (\<lambda>cell. midpoint m cell < x) (cells m))"
    unfolding z by (simp add: filter_map comp_def)
  with bisect_cells_length [OF r] r show ?thesis
    by (simp add: refine_step_def refine_def num_cells_def mark_cells_def)
qed

lemma refine_step_unmarked:
  assumes "\<forall>cell \<in> set (cells m). \<not> midpoint m cell < x"
  shows "refine_step x m = m"
proof -
  note z = zip_mark_cells [of m x]
  have "bisect_cells (coordinates m) (length (coordinates m))
      (zip (cells m) (mark_cells m x)) = (cells m, [])"
    unfolding z using assms
    by (subst bisect_cells_unmarked) (auto simp: comp_def)
  then show ?thesis by (simp add: refine_step_def refine_def)
qed

lemma refine_loop_stuck:
  assumes "int (num_cells m) < n0 + c"
    and "\<forall>cell \<in> set (cells m). \<not> midpoint m cell < x"
  shows "refine_loop n0 c x m = None"
proof (rule ccontr)
  assume "refine_loop n0 c x m \<noteq> None"
  then obtain y where y: "refine_loop n0 c x m = Some y" by auto
  let ?stuck = "\<lambda>n0 c x m. int (num_cells m) < n0 + c
                   \<and> (\<forall>cell \<in> set (cells m). \<not> midpoint m cell < x)"
  have "\<not> ?stuck n0 c x m"
  proof (rule refine_loop.raw_induct [where P = "\<lambda>n0 c x m y. \<not> ?stuck n0 c x m", OF _ y])
    fix f :: "int \<Rightarrow> int \<Rightarrow> real \<Rightarrow> mesh \<Rightarrow> mesh option" and n0 c x m y
    assume IH: "\<And>n0 c x m y. f n0 c x m = Some y \<Longrightarrow> \<not> ?stuck n0 c x m"
      and body: "(if int (num_cells m) < n0 + c then f n0 c x (refine_step x m) else Some m) = Some y"
    show "\<not> ?stuck n0 c x m"
    proof
      assume h: "?stuck n0 c x m"
      then have "refine_step x m = m" by (simp add: refine_step_unmarked)
      with h body have "f n0 c x m = Some y" by simp
      from IH [OF this] h show False by simp
    qed
  qed
  with assms show False by simp
qed

lemma bisect_cells_member:
  "bisect_cells vs n czs = (cs, ws) \<Longrightarrow> ((a, b), k) \<in> set czs \<Longrightarrow>
   (\<not> k \<longrightarrow> (a, b) \<in> set cs) \<and>
   (k \<longrightarrow> (\<exists>i < length ws. (a, n + i) \<in> set cs \<and> ws ! i = (vs ! a + vs ! b) / 2))"
proof (induction czs arbitrary: n cs ws)
  case Nil
  then show ?case by simp
next
  case (Cons cz czs)
  obtain a' b' k' where cz: "cz = ((a', b'), k')" by (metis surj_pair)
  show ?case
  proof (cases k')
    case True
    obtain cs' ws' where r: "bisect_cells vs (Suc n) czs = (cs', ws')" by fastforce
    from Cons.prems(1) r cz True
    have eq: "cs = (a', n) # (n, b') # cs'" "ws = (vs ! a' + vs ! b') / 2 # ws'" by auto
    show ?thesis
    proof (cases "((a, b), k) = cz")
      case True
      with cz \<open>k'\<close> eq show ?thesis by auto
    next
      case False
      with Cons.prems(2) have "((a, b), k) \<in> set czs" by simp
      from Cons.IH [OF r this] eq show ?thesis by fastforce
    qed
  next
    case False
    obtain cs' ws' where r: "bisect_cells vs n czs = (cs', ws')" by fastforce
    from Cons.prems(1) r cz False
    have eq: "cs = (a', b') # cs'" "ws = ws'" by auto
    show ?thesis
    proof (cases "((a, b), k) = cz")
      case True
      with cz \<open>\<not> k'\<close> eq show ?thesis by auto
    next
      case False
      with Cons.prems(2) have "((a, b), k) \<in> set czs" by simp
      from Cons.IH [OF r this] eq show ?thesis by fastforce
    qed
  qed
qed

lemma has_cell_left_of_refine_step:
  assumes "has_cell_left_of B m"
  shows "has_cell_left_of B (refine_step x m)"
proof -
  let ?vs = "coordinates m"
  from assms obtain a b where ab: "(a, b) \<in> set (cells m)" "a < length ?vs" "b < length ?vs"
      "?vs ! a \<le> ?vs ! b" "(?vs ! a + ?vs ! b) / 2 \<le> B"
    by (auto simp: has_cell_left_of_def midpoint_def)
  obtain cs ws where r: "bisect_cells ?vs (length ?vs) (zip (cells m) (mark_cells m x)) = (cs, ws)"
    by fastforce
  have m': "refine_step x m = \<lparr>coordinates = ?vs @ ws, cells = cs\<rparr>"
    using r by (simp add: refine_step_def refine_def)
  have mem: "((a, b), midpoint m (a, b) < x) \<in> set (zip (cells m) (mark_cells m x))"
    unfolding zip_mark_cells using ab(1) by auto
  note bm = bisect_cells_member [OF r mem]
  show ?thesis
  proof (cases "midpoint m (a, b) < x")
    case False
    with bm have "(a, b) \<in> set cs" by simp
    with ab show ?thesis
      unfolding has_cell_left_of_def m' midpoint_def
      by (intro exI [of _ a] exI [of _ b]) (simp add: nth_append)
  next
    case True
    with bm obtain i where i: "i < length ws" "(a, length ?vs + i) \<in> set cs"
        "ws ! i = (?vs ! a + ?vs ! b) / 2" by auto
    have "(?vs @ ws) ! (length ?vs + i) = (?vs ! a + ?vs ! b) / 2"
      using i by (simp add: nth_append)
    moreover have "(?vs @ ws) ! a = ?vs ! a" using ab by (simp add: nth_append)
    ultimately show ?thesis
      unfolding has_cell_left_of_def m' midpoint_def
      using ab i by (intro exI [of _ a] exI [of _ "length ?vs + i"]) simp
  qed
qed

lemma num_cells_refine_step_mono: "num_cells m \<le> num_cells (refine_step x m)"
  by (simp add: num_cells_refine_step)

lemma num_cells_refine_step_grows:
  assumes "has_cell_left_of B m" "B < x"
  shows "num_cells m < num_cells (refine_step x m)"
proof -
  from assms obtain a b where "(a, b) \<in> set (cells m)" "midpoint m (a, b) < x"
    by (fastforce simp: has_cell_left_of_def)
  then have "filter (\<lambda>cell. midpoint m cell < x) (cells m) \<noteq> []"
    by (auto simp: filter_empty_conv)
  then show ?thesis by (simp add: num_cells_refine_step)
qed

lemma refine_loop_terminates:
  assumes "has_cell_left_of B m" "B < x"
  shows "\<exists>m'. refine_loop n0 c x m = Some m' \<and> has_cell_left_of B m'
            \<and> n0 + c \<le> int (num_cells m') \<and> num_cells m \<le> num_cells m'"
  using assms(1)
proof (induction "nat (n0 + c - int (num_cells m))" arbitrary: m rule: less_induct)
  case less
  show ?case
  proof (cases "int (num_cells m) < n0 + c")
    case False
    with less.prems show ?thesis by (subst refine_loop.simps) simp
  next
    case True
    let ?m1 = "refine_step x m"
    have g: "num_cells m < num_cells ?m1"
      using less.prems assms(2) by (rule num_cells_refine_step_grows)
    have inv: "has_cell_left_of B ?m1"
      using less.prems by (rule has_cell_left_of_refine_step)
    have "nat (n0 + c - int (num_cells ?m1)) < nat (n0 + c - int (num_cells m))"
      using g True by linarith
    from less.hyps [OF this inv] obtain m' where
      m': "refine_loop n0 c x ?m1 = Some m'" "has_cell_left_of B m'"
          "n0 + c \<le> int (num_cells m')" "num_cells ?m1 \<le> num_cells m'"
      by blast
    have "refine_loop n0 c x m = Some m'"
      using True m'(1) by (subst refine_loop.simps) simp
    with m' g show ?thesis by auto
  qed
qed

lemma refine_all_terminates:
  assumes "\<forall>r \<in> set rs. B < ref_x r" "has_cell_left_of B m" "n0 \<le> int (num_cells m)"
  shows "\<exists>m'. refine_all rs n0 m = Some m' \<and> n0 + sum_list (map ref_cells rs) \<le> int (num_cells m')
            \<and> num_cells m \<le> num_cells m'"
  using assms
proof (induction rs arbitrary: n0 m)
  case Nil
  then show ?case by simp
next
  case (Cons r rs)
  from Cons.prems have "B < ref_x r" by simp
  from refine_loop_terminates [OF Cons.prems(2) this, of n0 "ref_cells r"]
  obtain m1 where m1: "refine_loop n0 (ref_cells r) (ref_x r) m = Some m1"
      "has_cell_left_of B m1" "n0 + ref_cells r \<le> int (num_cells m1)"
      "num_cells m \<le> num_cells m1" by blast
  from Cons.prems have "\<forall>r \<in> set rs. B < ref_x r" by simp
  from Cons.IH [OF this m1(2), of "int (num_cells m1)"] obtain m' where
    m': "refine_all rs (int (num_cells m1)) m1 = Some m'"
        "int (num_cells m1) + sum_list (map ref_cells rs) \<le> int (num_cells m')"
        "num_cells m1 \<le> num_cells m'" by blast
  have "refine_all (r # rs) n0 m = Some m'" using m1(1) m'(1) by simp
  with m1 m' show ?case by auto
qed

lemma IntervalMesh_ok:
  assumes "1 \<le> n" "0 < s"
  shows "IntervalMesh n 0 s =
         Inr \<lparr>coordinates = map (\<lambda>i. s / real_of_int n * real i) [0..<nat n + 1],
              cells = map (\<lambda>j. (j, j + 1)) [0..<nat n]\<rparr>"
  using assms by (simp add: IntervalMesh_def)

lemma IntervalMesh_has_cell_left:
  assumes "1 \<le> n" "0 < s"
  shows "has_cell_left_of (s / (2 * real_of_int n))
           \<lparr>coordinates = map (\<lambda>i. s / real_of_int n * real i) [0..<nat n + 1],
            cells = map (\<lambda>j. (j, j + 1)) [0..<nat n]\<rparr>"
proof -
  have "(0, 1) \<in> set (map (\<lambda>j. (j, j + 1)) [0..<nat n])" using assms by auto
  moreover have "1 < nat n + 1" using assms by simp
  ultimately show ?thesis
    unfolding has_cell_left_of_def midpoint_def using assms
    by (intro exI [of _ 0] exI [of _ 1]) (simp add: nth_append del: upt_Suc)
qed

lemma mesh_and_refine_config:
  assumes "1 \<le> n" "0 < s"
  shows "mesh_and_refine (refine_config n s rs) =
         map_option Inr (refine_all rs n
           \<lparr>coordinates = map (\<lambda>i. s / real_of_int n * real i) [0..<nat n + 1],
            cells = map (\<lambda>j. (j, j + 1)) [0..<nat n]\<rparr>)"
  using assms by (simp add: mesh_and_refine_def refine_config_def IntervalMesh_ok)

text \<open>
  C1 (amended). For every generate-and-refine configuration with a positive initial number
  of cells and a positive size whose refinement points all lie strictly right of the
  midpoint \<open>size / (2 * initial_number_of_cells)\<close> of the first cell, every refinement
  loop terminates, and the final number of cells is at least the initial number plus the
  requested additional cells of all refinements (for a single refinement: at least
  \<open>initial_count + target_additional_cells\<close>, not necessarily equal to it).
\<close>

theorem mesh_and_refine_reaches_target:
  assumes "initial_number_of_cells p = Some n" "size_param p = Some s"
    and "refinements p = Some rs"
    and "1 \<le> n" "0 < s"
    and "\<forall>r \<in> set rs. s / (2 * real_of_int n) < ref_x r"
  shows "\<exists>m. mesh_and_refine p = Some (Inr m)
           \<and> n + sum_list (map ref_cells rs) \<le> int (num_cells m)"
proof -
  let ?m0 = "\<lparr>coordinates = map (\<lambda>i. s / real_of_int n * real i) [0..<nat n + 1],
              cells = map (\<lambda>j. (j, j + 1)) [0..<nat n]\<rparr>"
  have inv: "has_cell_left_of (s / (2 * real_of_int n)) ?m0"
    using assms(4,5) by (rule IntervalMesh_has_cell_left)
  have n0: "n \<le> int (num_cells ?m0)" using assms(4) by (simp add: num_cells_def)
  from refine_all_terminates [OF assms(6) inv n0] obtain m' where
    m': "refine_all rs n ?m0 = Some m'" "n + sum_list (map ref_cells rs) \<le> int (num_cells m')"
    by blast
  have "mesh_and_refine p = map_option Inr (refine_all rs n ?m0)"
    using assms(1-5) by (simp add: mesh_and_refine_def IntervalMesh_ok)
  with m' show ?thesis by simp
qed

theorem mesh_and_refine_reaches_target_witness:
  "\<exists>m. mesh_and_refine (refine_config 10 1 [\<lparr>ref_cells = 5, ref_x = 3 / 10\<rparr>]) = Some (Inr m)
     \<and> 15 \<le> int (num_cells m)"
  using mesh_and_refine_reaches_target
    [of "refine_config 10 1 [\<lparr>ref_cells = 5, ref_x = 3 / 10\<rparr>]" 10 1
        "[\<lparr>ref_cells = 5, ref_x = 3 / 10\<rparr>]"]
  by (simp add: refine_config_def)

text \<open>
  C1 as stated fails on the scenario of the spec: with 10 initial cells on \<open>[0, 1]\<close> and
  the refinement \<open>{cells: 5, x: 0.3}\<close> the first pass bisects 3 cells (13 cells), the
  second pass bisects 6 cells, and the loop leaves with 19 cells, not 15.
\<close>

theorem mesh_and_refine_overshoots:
  "map_option (map_sum id num_cells)
     (mesh_and_refine (refine_config 10 1 [\<lparr>ref_cells = 5, ref_x = 3 / 10\<rparr>])) = Some (Inr 19)
   \<and> map_option (map_sum id num_cells)
     (mesh_and_refine (refine_config 10 1 [\<lparr>ref_cells = 5, ref_x = 3 / 10\<rparr>])) \<noteq> Some (Inr (10 + 5))"
  by (simp add: refine_config_def mesh_and_refine_def IntervalMesh_def refine_loop.simps
      refine_step_def num_cells_def mark_cells_def midpoint_def refine_def upt_rec numeral_nat)

text \<open>
  A refinement point strictly inside \<open>(0, size)\<close> is not enough for termination: with one
  cell on \<open>[0, 1]\<close> and the point \<open>0.3\<close> the only midpoint is \<open>0.5\<close>, no cell is marked,
  and the loop never leaves.
\<close>

lemma mesh_and_refine_inside_diverges:
  "mesh_and_refine (refine_config 1 1 [\<lparr>ref_cells = 1, ref_x = 3 / 10\<rparr>]) = None"
proof -
  have "refine_loop 1 1 (3 / 10) \<lparr>coordinates = [0, 1], cells = [(0, 1)]\<rparr> = None"
    by (rule refine_loop_stuck) (simp_all add: num_cells_def midpoint_def)
  then show ?thesis
    by (simp add: refine_config_def mesh_and_refine_def IntervalMesh_def)
qed

lemma num_cells_funpow_mono:
  "num_cells m \<le> num_cells ((refine_step x ^^ k) m)"
proof (induction k)
  case 0
  then show ?case by simp
next
  case (Suc k)
  have "num_cells ((refine_step x ^^ k) m) \<le> num_cells (refine_step x ((refine_step x ^^ k) m))"
    by (rule num_cells_refine_step_mono)
  with Suc show ?case by simp
qed

lemma refine_loop_funpow:
  "int (num_cells ((refine_step x ^^ k) m)) < n0 + c \<Longrightarrow>
   refine_loop n0 c x m = refine_loop n0 c x ((refine_step x ^^ k) m)"
proof (induction k arbitrary: m)
  case 0
  then show ?case by simp
next
  case (Suc k)
  have eq: "(refine_step x ^^ Suc k) m = (refine_step x ^^ k) (refine_step x m)"
    by (simp add: funpow_swap1)
  from Suc.prems have below: "int (num_cells ((refine_step x ^^ k) (refine_step x m))) < n0 + c"
    by (simp only: eq)
  have "num_cells m \<le> num_cells ((refine_step x ^^ Suc k) m)"
    by (rule num_cells_funpow_mono)
  with Suc.prems have "int (num_cells m) < n0 + c" by linarith
  then have "refine_loop n0 c x m = refine_loop n0 c x (refine_step x m)"
    by (subst refine_loop.simps) simp
  also have "\<dots> = refine_loop n0 c x ((refine_step x ^^ k) (refine_step x m))"
    using below by (rule Suc.IH)
  finally show ?case by (simp only: eq)
qed

lemma IntervalMesh_midpoints_nonneg:
  assumes "1 \<le> n" "0 < s"
    and "cell \<in> set (map (\<lambda>j. (j, j + 1)) [0..<nat n])"
  shows "0 \<le> midpoint \<lparr>coordinates = map (\<lambda>i. s / real_of_int n * real i) [0..<nat n + 1],
                         cells = map (\<lambda>j. (j, j + 1)) [0..<nat n]\<rparr> cell"
proof -
  let ?V = "map (\<lambda>i. s / real_of_int n * real i) [0..<nat n + 1]"
  from assms(3) obtain j where j: "cell = (j, j + 1)" "j < nat n" by auto
  have "0 \<le> s / real_of_int n" using assms by simp
  then have nn: "0 \<le> s / real_of_int n * real i" for i
    by (intro mult_nonneg_nonneg) simp_all
  have c: "?V ! i = s / real_of_int n * real i" if "i < nat n + 1" for i
    using that by (simp only: nth_map_upt) simp
  have "0 \<le> ?V ! j" using c [of j] nn [of j] j by simp
  moreover have "0 \<le> ?V ! (j + 1)" using c [of "j + 1"] nn [of "j + 1"] j by simp
  ultimately have "0 \<le> (?V ! j + ?V ! (j + 1)) / 2" by simp
  then show ?thesis by (simp only: midpoint_def j mesh.simps fst_conv snd_conv)
qed

text \<open>
  C6. If the refinement loop returns, then at every iteration reached with the number of
  cells still below the target at least one cell has its midpoint strictly left of the
  refinement point. With a positive initial number of cells and size, a first refinement
  that asks for at least one additional cell at a point at or left of the left endpoint 0
  marks no cell, and the call never returns: the loop has no iteration bound and no
  no-progress test.
\<close>

theorem refine_loop_needs_progress:
  "(refine_loop n0 c x m = Some m' \<longrightarrow>
      (\<forall>k. int (num_cells ((refine_step x ^^ k) m)) < n0 + c \<longrightarrow>
           (\<exists>cell \<in> set (cells ((refine_step x ^^ k) m)).
               midpoint ((refine_step x ^^ k) m) cell < x)))
   \<and> (1 \<le> n \<and> 0 < s \<and> 1 \<le> ref_cells r \<and> ref_x r \<le> 0 \<longrightarrow>
        mesh_and_refine (refine_config n s (r # rs)) = None)"
proof (intro conjI impI allI)
  fix k
  assume ret: "refine_loop n0 c x m = Some m'"
    and below: "int (num_cells ((refine_step x ^^ k) m)) < n0 + c"
  show "\<exists>cell \<in> set (cells ((refine_step x ^^ k) m)). midpoint ((refine_step x ^^ k) m) cell < x"
  proof (rule ccontr)
    assume "\<not> ?thesis"
    then have "\<forall>cell \<in> set (cells ((refine_step x ^^ k) m)).
                 \<not> midpoint ((refine_step x ^^ k) m) cell < x" by simp
    with below have "refine_loop n0 c x ((refine_step x ^^ k) m) = None"
      by (rule refine_loop_stuck)
    with refine_loop_funpow [OF below] ret show False by simp
  qed
next
  assume h: "1 \<le> n \<and> 0 < s \<and> 1 \<le> ref_cells r \<and> ref_x r \<le> 0"
  let ?m0 = "\<lparr>coordinates = map (\<lambda>i. s / real_of_int n * real i) [0..<nat n + 1],
              cells = map (\<lambda>j. (j, j + 1)) [0..<nat n]\<rparr>"
  have "int (num_cells ?m0) < n + ref_cells r" using h by (simp add: num_cells_def)
  moreover have "\<forall>cell \<in> set (cells ?m0). \<not> midpoint ?m0 cell < ref_x r"
  proof
    fix cell assume "cell \<in> set (cells ?m0)"
    then have "cell \<in> set (map (\<lambda>j. (j, j + 1)) [0..<nat n])" by simp
    from IntervalMesh_midpoints_nonneg [OF _ _ this, of s] h
    have "0 \<le> midpoint ?m0 cell" by simp
    with h show "\<not> midpoint ?m0 cell < ref_x r" by linarith
  qed
  ultimately have "refine_loop n (ref_cells r) (ref_x r) ?m0 = None"
    by (rule refine_loop_stuck)
  then have "refine_all (r # rs) n ?m0 = None" by simp
  with h show "mesh_and_refine (refine_config n s (r # rs)) = None"
    by (simp add: mesh_and_refine_config)
qed

theorem refine_loop_needs_progress_witness:
  "(\<exists>cell \<in> set (cells \<lparr>coordinates = [0, 1 / 2, 1], cells = [(0, 1), (1, 2)]\<rparr>).
       midpoint \<lparr>coordinates = [0, 1 / 2, 1], cells = [(0, 1), (1, 2)]\<rparr> cell < 3 / 10)
   \<and> mesh_and_refine (refine_config 10 1 [\<lparr>ref_cells = 5, ref_x = 0\<rparr>]) = None"
proof -
  let ?m = "\<lparr>coordinates = [0, 1 / 2, 1], cells = [(0, 1), (1, 2)]\<rparr>"
  have ret: "refine_loop 2 1 (3 / 10) ?m =
             Some \<lparr>coordinates = [0, 1 / 2, 1, 1 / 4], cells = [(0, 3), (3, 1), (1, 2)]\<rparr>"
    by (simp add: refine_loop.simps refine_step_def num_cells_def mark_cells_def midpoint_def
        refine_def)
  have below: "int (num_cells ((refine_step (3 / 10) ^^ 0) ?m)) < 2 + 1"
    by (simp add: num_cells_def)
  note inst = refine_loop_needs_progress
    [of 2 1 "3 / 10" ?m "\<lparr>coordinates = [0, 1 / 2, 1, 1 / 4], cells = [(0, 3), (3, 1), (1, 2)]\<rparr>"
        10 1 "\<lparr>ref_cells = 5, ref_x = 0\<rparr>" "[]"]
  from inst ret below
  have "\<exists>cell \<in> set (cells ((refine_step (3 / 10) ^^ 0) ?m)).
           midpoint ((refine_step (3 / 10) ^^ 0) ?m) cell < 3 / 10"
    by blast
  moreover from inst have "mesh_and_refine (refine_config 10 1 [\<lparr>ref_cells = 5, ref_x = 0\<rparr>]) = None"
    by simp
  ultimately show ?thesis by simp
qed

section \<open>Properties of the uniform mesh and of create_mesh\<close>

text \<open>
  C5. Building the uniform mesh fails with an error whenever \<open>initial_number_of_cells\<close> or
  \<open>size\<close> is missing or non-positive. When both are present and positive (and no
  refinement is requested) the call returns a mesh with \<open>initial_number_of_cells + 1\<close>
  vertices, vertex \<open>i\<close> at \<open>i * size / initial_number_of_cells\<close>, so from 0 to \<open>size\<close>, and
  \<open>initial_number_of_cells\<close> cells, cell \<open>j\<close> joining vertices \<open>j\<close> and \<open>j + 1\<close> and of
  length \<open>size / initial_number_of_cells\<close>.
\<close>

theorem mesh_and_refine_uniform:
  "((initial_number_of_cells p = None \<or> size_param p = None
      \<or> (\<exists>k. initial_number_of_cells p = Some k \<and> k \<le> 0)
      \<or> (\<exists>l. size_param p = Some l \<and> l \<le> 0))
     \<longrightarrow> (\<exists>e. mesh_and_refine p = Some (Inl e)))
   \<and> (initial_number_of_cells p = Some n \<and> size_param p = Some s \<and> 0 < n \<and> 0 < s
        \<and> (refinements p = None \<or> refinements p = Some [])
     \<longrightarrow> (\<exists>m. mesh_and_refine p = Some (Inr m)
            \<and> length (coordinates m) = nat n + 1
            \<and> (\<forall>i \<le> nat n. coordinates m ! i = real i * s / real_of_int n)
            \<and> coordinates m ! 0 = 0 \<and> coordinates m ! nat n = s
            \<and> num_cells m = nat n
            \<and> (\<forall>j < nat n. cells m ! j = (j, j + 1)
                  \<and> coordinates m ! (j + 1) - coordinates m ! j = s / real_of_int n)))"
proof (intro conjI impI)
  assume "initial_number_of_cells p = None \<or> size_param p = None
      \<or> (\<exists>k. initial_number_of_cells p = Some k \<and> k \<le> 0)
      \<or> (\<exists>l. size_param p = Some l \<and> l \<le> 0)"
  then show "\<exists>e. mesh_and_refine p = Some (Inl e)"
    by (auto simp: mesh_and_refine_def IntervalMesh_def split: option.splits)
next
  assume h: "initial_number_of_cells p = Some n \<and> size_param p = Some s \<and> 0 < n \<and> 0 < s
        \<and> (refinements p = None \<or> refinements p = Some [])"
  let ?V = "map (\<lambda>i. s / real_of_int n * real i) [0..<nat n + 1]"
  let ?m = "\<lparr>coordinates = ?V, cells = map (\<lambda>j. (j, j + 1)) [0..<nat n]\<rparr>"
  have im: "IntervalMesh n 0 s = Inr ?m" using h by (simp add: IntervalMesh_ok)
  have ret: "mesh_and_refine p = Some (Inr ?m)"
    using h im by (auto simp: mesh_and_refine_def)
  have c: "?V ! i = real i * s / real_of_int n" if "i < nat n + 1" for i
    using that by (simp only: nth_map_upt) simp
  have c0: "?V ! 0 = 0" using c [of 0] by simp
  have cn: "?V ! nat n = s" using c [of "nat n"] h by simp
  have step: "?V ! (j + 1) - ?V ! j = s / real_of_int n" if "j < nat n" for j
    using c [of j] c [of "j + 1"] that by (simp add: field_simps)
  have cellj: "map (\<lambda>j. (j, j + 1)) [0..<nat n] ! j = (j, j + 1)" if "j < nat n" for j
    using that by simp
  have "length (coordinates ?m) = nat n + 1" by simp
  moreover have "\<forall>i \<le> nat n. coordinates ?m ! i = real i * s / real_of_int n"
    using c by (simp only: mesh.simps) auto
  moreover have "coordinates ?m ! 0 = 0" "coordinates ?m ! nat n = s"
    using c0 cn by (simp_all only: mesh.simps)
  moreover have "num_cells ?m = nat n" by (simp add: num_cells_def)
  moreover have "\<forall>j < nat n. cells ?m ! j = (j, j + 1)
                  \<and> coordinates ?m ! (j + 1) - coordinates ?m ! j = s / real_of_int n"
    using step cellj by (simp only: mesh.simps) blast
  ultimately show "\<exists>m. mesh_and_refine p = Some (Inr m)
            \<and> length (coordinates m) = nat n + 1
            \<and> (\<forall>i \<le> nat n. coordinates m ! i = real i * s / real_of_int n)
            \<and> coordinates m ! 0 = 0 \<and> coordinates m ! nat n = s
            \<and> num_cells m = nat n
            \<and> (\<forall>j < nat n. cells m ! j = (j, j + 1)
                  \<and> coordinates m ! (j + 1) - coordinates m ! j = s / real_of_int n)"
    using ret by blast
qed

theorem mesh_and_refine_uniform_witness:
  "(\<exists>e. mesh_and_refine (refine_config 0 1 []) = Some (Inl e))
   \<and> (\<exists>m. mesh_and_refine (refine_config 4 2 []) = Some (Inr m)
          \<and> length (coordinates m) = 5 \<and> coordinates m ! 0 = 0 \<and> coordinates m ! 4 = 2
          \<and> num_cells m = 4)"
proof -
  have "\<exists>e. mesh_and_refine (refine_config 0 1 []) = Some (Inl e)"
    using mesh_and_refine_uniform [of "refine_config 0 1 []"]
    by (simp add: refine_config_def)
  moreover have "\<exists>m. mesh_and_refine (refine_config 4 2 []) = Some (Inr m)
          \<and> length (coordinates m) = 5 \<and> coordinates m ! 0 = 0 \<and> coordinates m ! 4 = 2
          \<and> num_cells m = 4"
    using mesh_and_refine_uniform [of "refine_config 4 2 []" 4 2]
    by (auto simp: refine_config_def)
  ultimately show ?thesis by blast
qed

text \<open>
  C4. The resolver takes the first matching source in the fixed order: (1) a mesh file,
  read by the external loader; (2) a pre-built object that is a mesh, returned as it is;
  (3) an explicit vertex list; (4) otherwise generate-and-refine. In each case the fields of
  lower precedence do not influence the result. When none of the first three is present and
  \<open>initial_number_of_cells\<close> or \<open>size\<close> is missing too, the call ends in an error and
  produces no mesh.
\<close>

theorem create_mesh_precedence:
  "(mesh_file p = Some f \<longrightarrow>
      create_mesh read_mesh p = Some (read_mesh f)
      \<and> create_mesh read_mesh
           (p\<lparr>mesh_obj := a, vertices := b, initial_number_of_cells := c, size_param := d,
              refinements := e\<rparr>) = create_mesh read_mesh p)
   \<and> (mesh_file p = None \<and> mesh_obj p = Some (MeshObj m) \<longrightarrow>
      create_mesh read_mesh p = Some (Inr m)
      \<and> create_mesh read_mesh
           (p\<lparr>vertices := b, initial_number_of_cells := c, size_param := d, refinements := e\<rparr>)
         = create_mesh read_mesh p)
   \<and> (mesh_file p = None \<and> \<not> (\<exists>m'. mesh_obj p = Some (MeshObj m')) \<and> vertices p = Some vs \<longrightarrow>
      create_mesh read_mesh p = Some (generate_mesh_from_vertices vs)
      \<and> create_mesh read_mesh
           (p\<lparr>initial_number_of_cells := c, size_param := d, refinements := e\<rparr>)
         = create_mesh read_mesh p)
   \<and> (mesh_file p = None \<and> \<not> (\<exists>m'. mesh_obj p = Some (MeshObj m')) \<and> vertices p = None \<longrightarrow>
      create_mesh read_mesh p = mesh_and_refine p
      \<and> (initial_number_of_cells p = None \<or> size_param p = None \<longrightarrow>
           (\<exists>err. create_mesh read_mesh p = Some (Inl err))))"
proof (intro conjI impI)
  assume "mesh_file p = Some f"
  then show "create_mesh read_mesh p = Some (read_mesh f)"
    and "create_mesh read_mesh
           (p\<lparr>mesh_obj := a, vertices := b, initial_number_of_cells := c, size_param := d,
              refinements := e\<rparr>) = create_mesh read_mesh p"
    by (simp_all add: create_mesh_def)
next
  assume "mesh_file p = None \<and> mesh_obj p = Some (MeshObj m)"
  then show "create_mesh read_mesh p = Some (Inr m)"
    and "create_mesh read_mesh
           (p\<lparr>vertices := b, initial_number_of_cells := c, size_param := d, refinements := e\<rparr>)
         = create_mesh read_mesh p"
    by (simp_all add: create_mesh_def)
next
  assume h: "mesh_file p = None \<and> \<not> (\<exists>m'. mesh_obj p = Some (MeshObj m')) \<and> vertices p = Some vs"
  then have nm: "\<not> (mesh_obj p \<noteq> None \<and> is_MeshObj (the (mesh_obj p)))"
    by (auto simp: py_obj.is_MeshObj_def)
  from h nm show "create_mesh read_mesh p = Some (generate_mesh_from_vertices vs)"
    and "create_mesh read_mesh
           (p\<lparr>initial_number_of_cells := c, size_param := d, refinements := e\<rparr>)
         = create_mesh read_mesh p"
    by (auto simp: create_mesh_def)
next
  assume h: "mesh_file p = None \<and> \<not> (\<exists>m'. mesh_obj p = Some (MeshObj m')) \<and> vertices p = None"
  then have nm: "\<not> (mesh_obj p \<noteq> None \<and> is_MeshObj (the (mesh_obj p)))"
    by (auto simp: py_obj.is_MeshObj_def)
  from h nm show eq: "create_mesh read_mesh p = mesh_and_refine p"
    by (auto simp: create_mesh_def)
  assume "initial_number_of_cells p = None \<or> size_param p = None"
  then have "\<exists>err. mesh_and_refine p = Some (Inl err)"
    by (auto simp: mesh_and_refine_def split: option.splits)
  with eq show "\<exists>err. create_mesh read_mesh p = Some (Inl err)" by simp
qed

theorem create_mesh_precedence_witness:
  "create_mesh (\<lambda>f. Inr \<lparr>coordinates = [0, 2], cells = [(0, 1)]\<rparr>)
     ((refine_config 3 1 [])\<lparr>mesh_file := Some ''mesh.xdmf'', mesh_obj := Some (MeshObj Mesh),
        vertices := Some [0, 1]\<rparr>)
     = Some (Inr \<lparr>coordinates = [0, 2], cells = [(0, 1)]\<rparr>)
   \<and> create_mesh (\<lambda>f. Inl RuntimeError)
       ((refine_config 3 1 [])\<lparr>mesh_obj := Some (MeshObj Mesh), vertices := Some [0, 1]\<rparr>)
     = Some (Inr Mesh)
   \<and> create_mesh (\<lambda>f. Inl RuntimeError)
       ((refine_config 3 1 [])\<lparr>mesh_obj := Some OtherObj, vertices := Some [1, 0]\<rparr>)
     = Some (generate_mesh_from_vertices [1, 0])
   \<and> (\<exists>err. create_mesh (\<lambda>f. Inl RuntimeError)
         ((refine_config 3 1 [])\<lparr>mesh_obj := Some OtherObj, size_param := None\<rparr>)
       = Some (Inl err))"
proof -
  let ?p1 = "(refine_config 3 1 [])\<lparr>mesh_file := Some ''mesh.xdmf'',
               mesh_obj := Some (MeshObj Mesh), vertices := Some [0, 1]\<rparr>"
  let ?p2 = "(refine_config 3 1 [])\<lparr>mesh_obj := Some (MeshObj Mesh), vertices := Some [0, 1]\<rparr>"
  let ?p3 = "(refine_config 3 1 [])\<lparr>mesh_obj := Some OtherObj, vertices := Some [1, 0]\<rparr>"
  let ?p4 = "(refine_config 3 1 [])\<lparr>mesh_obj := Some OtherObj, size_param := None\<rparr>"
  have h1: "mesh_file ?p1 = Some ''mesh.xdmf''"
    by (simp add: refine_config_def)
  have h2: "mesh_file ?p2 = None \<and> mesh_obj ?p2 = Some (MeshObj Mesh)"
    by (simp add: refine_config_def)
  have h3: "mesh_file ?p3 = None \<and> \<not> (\<exists>m'. mesh_obj ?p3 = Some (MeshObj m'))
              \<and> vertices ?p3 = Some [1, 0]"
    by (simp add: refine_config_def)
  have h4: "mesh_file ?p4 = None \<and> \<not> (\<exists>m'. mesh_obj ?p4 = Some (MeshObj m'))
              \<and> vertices ?p4 = None"
    by (simp add: refine_config_def)
  have h4': "initial_number_of_cells ?p4 = None \<or> size_param ?p4 = None"
    by (simp add: refine_config_def)
  have "create_mesh (\<lambda>f. Inr \<lparr>coordinates = [0, 2], cells = [(0, 1)]\<rparr>) ?p1
          = Some (Inr \<lparr>coordinates = [0, 2], cells = [(0, 1)]\<rparr>)"
    using h1 create_mesh_precedence [where p = ?p1 and f = "''mesh.xdmf''"
        and read_mesh = "\<lambda>f. Inr \<lparr>coordinates = [0, 2], cells = [(0, 1)]\<rparr>"]
    by blast
  moreover have "create_mesh (\<lambda>f. Inl RuntimeError) ?p2 = Some (Inr Mesh)"
    using h2 create_mesh_precedence [where p = ?p2 and m = Mesh
        and read_mesh = "\<lambda>f. Inl RuntimeError"]
    by blast
  moreover have "create_mesh (\<lambda>f. Inl RuntimeError) ?p3 = Some (generate_mesh_from_vertices [1, 0])"
    using h3 create_mesh_precedence [where p = ?p3 and vs = "[1, 0]"
        and read_mesh = "\<lambda>f. Inl RuntimeError"]
    by blast
  moreover have "\<exists>err. create_mesh (\<lambda>f. Inl RuntimeError) ?p4 = Some (Inl err)"
    using h4 h4' create_mesh_precedence [where p = ?p4 and read_mesh = "\<lambda>f. Inl RuntimeError"]
    by blast
  ultimately show ?thesis by blast
qed

section \<open>Properties of the tagging pass\<close>

lemma mark_cell_frame:
  "ts_mesh (mark_cell mats j material st) = ts_mesh st"
  "surface_markers (mark_cell mats j material st) = surface_markers st"
  "length (volume_markers (mark_cell mats j material st)) = length (volume_markers st)"
  by (simp_all add: mark_cell_def)

lemma fold_mark_cell_frame:
  "ts_mesh (fold (mark_cell mats j) ms st) = ts_mesh st"
  "surface_markers (fold (mark_cell mats j) ms st) = surface_markers st"
  by (induction ms arbitrary: st) (simp_all add: mark_cell_frame)

lemma mark_cell_slot:
  "volume_markers (mark_cell mats j material st) =
   (volume_markers st)[j := cell_tag mats (midpoint (ts_mesh st) (cells (ts_mesh st) ! j))
                               [material] (volume_markers st ! j)]"
  by (auto simp: mark_cell_def cell_tag_def covers_def)

lemma fold_mark_cell_slot:
  "j < length (volume_markers st) \<Longrightarrow>
   volume_markers (fold (mark_cell mats j) ms st) =
   (volume_markers st)[j := cell_tag mats (midpoint (ts_mesh st) (cells (ts_mesh st) ! j))
                               ms (volume_markers st ! j)]"
proof (induction ms arbitrary: st)
  case Nil
  then show ?case by (simp add: cell_tag_def)
next
  case (Cons material ms)
  let ?st1 = "mark_cell mats j material st"
  let ?x = "midpoint (ts_mesh st) (cells (ts_mesh st) ! j)"
  have len: "j < length (volume_markers ?st1)" using Cons.prems by (simp add: mark_cell_frame)
  have "volume_markers (fold (mark_cell mats j) (material # ms) st) =
        volume_markers (fold (mark_cell mats j) ms ?st1)" by simp
  also have "\<dots> = (volume_markers ?st1)[j := cell_tag mats ?x ms (volume_markers ?st1 ! j)]"
    using Cons.IH [OF len] by (simp add: mark_cell_frame)
  also have "\<dots> = (volume_markers st)[j := cell_tag mats ?x (material # ms) (volume_markers st ! j)]"
    using Cons.prems by (simp add: mark_cell_slot cell_tag_def)
  finally show ?case .
qed

lemma cells_loop:
  "k \<le> length (volume_markers st) \<Longrightarrow>
   fold (\<lambda>j. fold (mark_cell mats j) mats) [0..<k] st =
   st\<lparr>volume_markers :=
        map (\<lambda>j. cell_tag mats (midpoint (ts_mesh st) (cells (ts_mesh st) ! j)) mats
                    (volume_markers st ! j)) [0..<k]
        @ drop k (volume_markers st)\<rparr>"
proof (induction k)
  case 0
  then show ?case by simp
next
  case (Suc k)
  let ?g = "\<lambda>j. cell_tag mats (midpoint (ts_mesh st) (cells (ts_mesh st) ! j)) mats
                    (volume_markers st ! j)"
  let ?stk = "st\<lparr>volume_markers := map ?g [0..<k] @ drop k (volume_markers st)\<rparr>"
  from Suc.prems have k: "k < length (volume_markers st)" by simp
  have ih: "fold (\<lambda>j. fold (mark_cell mats j) mats) [0..<k] st = ?stk"
    using Suc by simp
  have vk: "volume_markers ?stk ! k = volume_markers st ! k"
    using k by (simp add: nth_append)
  have lk: "k < length (volume_markers ?stk)" using k by simp
  let ?st' = "fold (mark_cell mats k) mats ?stk"
  have upd: "(map ?g [0..<k] @ drop k (volume_markers st))[k := ?g k] =
             map ?g [0..<Suc k] @ drop (Suc k) (volume_markers st)"
  proof -
    have "(map ?g [0..<k] @ drop k (volume_markers st))[k := ?g k] =
          map ?g [0..<k] @ (drop k (volume_markers st))[0 := ?g k]"
      by (simp add: list_update_append)
    also have "\<dots> = map ?g [0..<k] @ (volume_markers st ! k # drop (Suc k) (volume_markers st))[0 := ?g k]"
      using k by (simp only: Cons_nth_drop_Suc)
    finally show ?thesis by simp
  qed
  have "volume_markers ?st' = (volume_markers ?stk)[k := ?g k]"
    using fold_mark_cell_slot [OF lk, of mats mats] vk by simp
  then have v: "volume_markers ?st' = map ?g [0..<Suc k] @ drop (Suc k) (volume_markers st)"
    using upd by simp
  have m: "ts_mesh ?st' = ts_mesh st" by (simp add: fold_mark_cell_frame)
  have sm: "surface_markers ?st' = surface_markers st" by (simp add: fold_mark_cell_frame)
  have "?st' = st\<lparr>volume_markers := map ?g [0..<Suc k] @ drop (Suc k) (volume_markers st)\<rparr>"
    using v m sm by (cases ?st', cases st) simp
  moreover have "fold (\<lambda>j. fold (mark_cell mats j) mats) [0..<Suc k] st = ?st'"
    using ih by simp
  ultimately show ?case by simp
qed

lemma mark_facet_eq:
  "mark_facet eps s i st =
   st\<lparr>surface_markers := (surface_markers st)[i := facet_tag eps s (coordinates (ts_mesh st) ! i)]\<rparr>"
  by (simp add: mark_facet_def facet_tag_def Let_def)

lemma facets_loop:
  "k \<le> length (surface_markers st) \<Longrightarrow>
   fold (mark_facet eps s) [0..<k] st =
   st\<lparr>surface_markers :=
        map (\<lambda>i. facet_tag eps s (coordinates (ts_mesh st) ! i)) [0..<k]
        @ drop k (surface_markers st)\<rparr>"
proof (induction k)
  case 0
  then show ?case by simp
next
  case (Suc k)
  let ?g = "\<lambda>i. facet_tag eps s (coordinates (ts_mesh st) ! i)"
  from Suc.prems have k: "k < length (surface_markers st)" by simp
  have upd: "(map ?g [0..<k] @ drop k (surface_markers st))[k := ?g k] =
             map ?g [0..<Suc k] @ drop (Suc k) (surface_markers st)"
  proof -
    have "(map ?g [0..<k] @ drop k (surface_markers st))[k := ?g k] =
          map ?g [0..<k] @ (drop k (surface_markers st))[0 := ?g k]"
      by (simp add: list_update_append)
    also have "\<dots> = map ?g [0..<k] @ (surface_markers st ! k # drop (Suc k) (surface_markers st))[0 := ?g k]"
      using k by (simp only: Cons_nth_drop_Suc)
    finally show ?thesis by simp
  qed
  have "fold (mark_facet eps s) [0..<Suc k] st =
        mark_facet eps s k (st\<lparr>surface_markers := map ?g [0..<k] @ drop k (surface_markers st)\<rparr>)"
    using Suc by simp
  also have "\<dots> = st\<lparr>surface_markers :=
                       (map ?g [0..<k] @ drop k (surface_markers st))[k := ?g k]\<rparr>"
    by (simp add: mark_facet_eq)
  finally show ?case using upd by simp
qed

lemma tagging_pass_eq:
  "tagging_pass eps mats s st =
   st\<lparr>volume_markers :=
        map (\<lambda>cell. cell_tag mats (midpoint (ts_mesh st) cell) mats 0) (cells (ts_mesh st)),
      surface_markers := map (facet_tag eps s) (coordinates (ts_mesh st))\<rparr>"
proof -
  let ?m = "ts_mesh st"
  let ?st1 = "st\<lparr>volume_markers := replicate (num_cells ?m) 0\<rparr>"
  let ?vm = "map (\<lambda>cell. cell_tag mats (midpoint ?m cell) mats 0) (cells ?m)"
  have "map (\<lambda>j. cell_tag mats (midpoint ?m (cells ?m ! j)) mats (replicate (num_cells ?m) 0 ! j))
          [0..<num_cells ?m] =
        map (\<lambda>j. cell_tag mats (midpoint ?m (cells ?m ! j)) mats 0) [0..<num_cells ?m]"
    by (rule map_cong) simp_all
  also have "\<dots> = map (\<lambda>cell. cell_tag mats (midpoint ?m cell) mats 0)
                     (map (\<lambda>j. cells ?m ! j) [0..<length (cells ?m)])"
    by (simp add: num_cells_def comp_def)
  also have "\<dots> = ?vm" by (simp only: map_nth)
  finally have vm: "map (\<lambda>j. cell_tag mats (midpoint ?m (cells ?m ! j)) mats
                            (replicate (num_cells ?m) 0 ! j)) [0..<num_cells ?m] = ?vm" .
  have c: "fold (\<lambda>j. fold (mark_cell mats j) mats) [0..<num_cells ?m] ?st1 =
           st\<lparr>volume_markers := ?vm\<rparr>"
    using cells_loop [of "num_cells ?m" ?st1 mats] vm by simp
  let ?st2 = "st\<lparr>volume_markers := ?vm,
                surface_markers := replicate (length (coordinates ?m)) 0\<rparr>"
  have "map (\<lambda>i. facet_tag eps s (coordinates ?m ! i)) [0..<length (coordinates ?m)] =
        map (facet_tag eps s) (map (\<lambda>i. coordinates ?m ! i) [0..<length (coordinates ?m)])"
    by (simp add: comp_def)
  also have "\<dots> = map (facet_tag eps s) (coordinates ?m)" by (simp only: map_nth)
  finally have sm: "map (\<lambda>i. facet_tag eps s (coordinates ?m ! i)) [0..<length (coordinates ?m)] =
                    map (facet_tag eps s) (coordinates ?m)" .
  have f: "fold (mark_facet eps s) [0..<length (coordinates ?m)] ?st2 =
           st\<lparr>volume_markers := ?vm, surface_markers := map (facet_tag eps s) (coordinates ?m)\<rparr>"
    using facets_loop [of "length (coordinates ?m)" ?st2 eps s] sm by simp
  show ?thesis
    unfolding tagging_pass_def Let_def using c f by simp
qed

lemma subdomains_1D_eq:
  "subdomains_1D eps m mats s =
   (map (\<lambda>cell. cell_tag mats (midpoint m cell) mats 0) (cells m),
    map (facet_tag eps s) (coordinates m))"
  by (simp add: subdomains_1D_def tagging_pass_eq)

lemma cell_tag_single: "cell_tag [material] x [material] t = mat_id material"
  by (simp add: cell_tag_def)

lemma cell_tag_uncovered:
  "length mats \<noteq> 1 \<Longrightarrow> \<forall>material \<in> set ms. \<not> covers material x \<Longrightarrow> cell_tag mats x ms t = t"
  by (induction ms arbitrary: t) (simp_all add: cell_tag_def)

lemma cell_tag_Cons:
  "cell_tag mats x (material # ms) t =
   cell_tag mats x ms (if length mats = 1 \<or> covers material x then mat_id material else t)"
  by (simp add: cell_tag_def)

lemma cell_tag_covered:
  "length mats \<noteq> 1 \<Longrightarrow> \<exists>material \<in> set ms. covers material x \<Longrightarrow>
   \<exists>material \<in> set ms. covers material x \<and> cell_tag mats x ms t = mat_id material"
proof (induction ms arbitrary: t)
  case Nil
  then show ?case by simp
next
  case (Cons a ms)
  show ?case
  proof (cases "\<exists>material \<in> set ms. covers material x")
    case True
    from Cons.IH [OF Cons.prems(1) True] show ?thesis
      by (auto simp: cell_tag_Cons)
  next
    case False
    with Cons.prems have a: "covers a x" by simp
    from False have "\<forall>material \<in> set ms. \<not> covers material x" by simp
    from cell_tag_uncovered [OF Cons.prems(1) this] a show ?thesis
      by (simp add: cell_tag_Cons)
  qed
qed

text \<open>
  C7 (amended). For every mesh and a materials list with exactly one material of id \<open>k\<close>,
  the tagger tags every cell with \<open>k\<close>, without looking at borders, and tags every facet
  that coincides (within the tolerance) with position \<open>size\<close> with 2, also when it
  coincides with position 0 as well; a facet that coincides with position 0 and not with
  \<open>size\<close> gets tag 1, and every other facet keeps tag 0.
\<close>

theorem subdomains_1D_single_material:
  "subdomains_1D eps m [material] domain_size =
     (replicate (num_cells m) (mat_id material),
      map (\<lambda>x. if near eps x domain_size then 2 else if near eps x 0 then 1 else 0)
        (coordinates m))"
proof -
  have "map (\<lambda>cell. cell_tag [material] (midpoint m cell) [material] 0) (cells m) =
        replicate (num_cells m) (mat_id material)"
    by (simp add: cell_tag_single map_replicate_const num_cells_def)
  moreover have "facet_tag eps domain_size =
                 (\<lambda>x. if near eps x domain_size then 2 else if near eps x 0 then 1 else 0)"
    by (rule ext) (simp add: facet_tag_def)
  ultimately show ?thesis by (simp add: subdomains_1D_eq)
qed

text \<open>
  C7 as stated fails when the facet at position 0 also coincides with position \<open>size\<close>:
  on the mesh with vertices 0 and 1e-16, with size 1e-16 and tolerance 3e-16, the second
  test of the facet loop overwrites tag 1 and the facet at 0 ends with tag 2.
\<close>

theorem subdomains_1D_left_facet_overwritten:
  "subdomains_1D (3 / 10 ^ 16) \<lparr>coordinates = [0, 1 / 10 ^ 16], cells = [(0, 1)]\<rparr>
     [\<lparr>mat_id = 5, borders = (PyInt 0, PyInt 1)\<rparr>] (1 / 10 ^ 16) = ([5], [2, 2])"
  by (simp add: subdomains_1D_def tagging_pass_def mark_cell_def mark_facet_def near_def
      num_cells_def Let_def)

text \<open>
  C8. For every mesh and every materials list the tagging pass returns one tag per cell.
  When the list does not consist of exactly one material, a cell whose midpoint lies in the
  border interval (both ends included) of some material is tagged with the id of a
  material whose interval contains the midpoint, and a cell whose midpoint lies in no
  material's interval keeps the default tag 0.
\<close>

theorem subdomains_1D_cell_tags:
  "length (fst (subdomains_1D eps m mats domain_size)) = num_cells m
   \<and> (\<forall>j < num_cells m. length mats \<noteq> 1 \<longrightarrow>
        ((\<exists>material \<in> set mats. covers material (midpoint m (cells m ! j))) \<longrightarrow>
           (\<exists>material \<in> set mats. covers material (midpoint m (cells m ! j))
               \<and> fst (subdomains_1D eps m mats domain_size) ! j = mat_id material))
        \<and> ((\<forall>material \<in> set mats. \<not> covers material (midpoint m (cells m ! j))) \<longrightarrow>
           fst (subdomains_1D eps m mats domain_size) ! j = 0))"
proof -
  have vm: "fst (subdomains_1D eps m mats domain_size) =
            map (\<lambda>cell. cell_tag mats (midpoint m cell) mats 0) (cells m)"
    by (simp add: subdomains_1D_eq)
  have nth: "fst (subdomains_1D eps m mats domain_size) ! j =
             cell_tag mats (midpoint m (cells m ! j)) mats 0" if "j < num_cells m" for j
    using that by (simp add: vm num_cells_def)
  show ?thesis
  proof (intro conjI allI impI)
    show "length (fst (subdomains_1D eps m mats domain_size)) = num_cells m"
      by (simp add: vm num_cells_def)
  next
    fix j
    assume j: "j < num_cells m" and l: "length mats \<noteq> 1"
      and c: "\<exists>material \<in> set mats. covers material (midpoint m (cells m ! j))"
    from cell_tag_covered [OF l c, of 0] nth [OF j]
    show "\<exists>material \<in> set mats. covers material (midpoint m (cells m ! j))
               \<and> fst (subdomains_1D eps m mats domain_size) ! j = mat_id material"
      by simp
  next
    fix j
    assume j: "j < num_cells m" and l: "length mats \<noteq> 1"
      and c: "\<forall>material \<in> set mats. \<not> covers material (midpoint m (cells m ! j))"
    from cell_tag_uncovered [OF l c, of 0] nth [OF j]
    show "fst (subdomains_1D eps m mats domain_size) ! j = 0" by simp
  qed
qed

theorem subdomains_1D_cell_tags_witness:
  "fst (subdomains_1D (3 / 10 ^ 16) \<lparr>coordinates = [0, 1, 2, 3], cells = [(0, 1), (1, 2), (2, 3)]\<rparr>
     [\<lparr>mat_id = 4, borders = (PyInt 0, PyInt 1)\<rparr>, \<lparr>mat_id = 7, borders = (PyInt 1, PyInt 2)\<rparr>] 2)
   = [4, 7, 0]"
proof -
  let ?m = "\<lparr>coordinates = [0, 1, 2, 3], cells = [(0, 1), (1, 2), (2, 3)]\<rparr>"
  let ?a = "\<lparr>mat_id = 4, borders = (PyInt 0, PyInt 1)\<rparr>"
  let ?b = "\<lparr>mat_id = 7, borders = (PyInt 1, PyInt 2)\<rparr>"
  let ?vm = "fst (subdomains_1D (3 / 10 ^ 16) ?m [?a, ?b] 2)"
  note inst = subdomains_1D_cell_tags [of "3 / 10 ^ 16" ?m "[?a, ?b]" 2]
  have n: "num_cells ?m = 3" by (simp add: num_cells_def)
  have l: "length [?a, ?b] \<noteq> 1" by simp
  have len: "length ?vm = 3" using inst n by simp
  have j0: "(0::nat) < num_cells ?m" and j1: "(1::nat) < num_cells ?m" and j2: "(2::nat) < num_cells ?m"
    using n by simp_all
  have c0: "\<exists>material \<in> set [?a, ?b]. covers material (midpoint ?m (cells ?m ! 0))"
    by (simp add: covers_def midpoint_def)
  have c1: "\<exists>material \<in> set [?a, ?b]. covers material (midpoint ?m (cells ?m ! 1))"
    by (simp add: covers_def midpoint_def)
  have c2: "\<forall>material \<in> set [?a, ?b]. \<not> covers material (midpoint ?m (cells ?m ! 2))"
    by (simp add: covers_def midpoint_def)
  from inst j0 l c0
  have "\<exists>material \<in> set [?a, ?b]. covers material (midpoint ?m (cells ?m ! 0))
          \<and> ?vm ! 0 = mat_id material" by blast
  then have v0: "?vm ! 0 = 4" by (auto simp: covers_def midpoint_def)
  from inst j1 l c1
  have "\<exists>material \<in> set [?a, ?b]. covers material (midpoint ?m (cells ?m ! 1))
          \<and> ?vm ! 1 = mat_id material" by blast
  then have v1: "?vm ! 1 = 7" by (auto simp: covers_def midpoint_def)
  from inst j2 l c2 have v2: "?vm ! 2 = 0" by blast
  have three: "xs = [xs ! 0, xs ! 1, xs ! 2]" if "length xs = 3" for xs :: "nat list"
  proof -
    from that obtain a b c where "xs = [a, b, c]"
      by (auto simp: length_Suc_conv numeral_3_eq_3)
    then show ?thesis by simp
  qed
  from three [OF len] v0 v1 v2 show ?thesis by simp
qed

text \<open>
  C9. The tagging pass is idempotent and leaves the mesh as it is: run on the state left
  by a first run, it gives the same state; the mesh of the state is unchanged; and the two
  arrays depend on nothing but the mesh, the materials, the size and the tolerance, being
  those the function returns for this mesh.
\<close>

theorem tagging_pass_idempotent:
  "tagging_pass eps mats domain_size (tagging_pass eps mats domain_size st)
     = tagging_pass eps mats domain_size st
   \<and> ts_mesh (tagging_pass eps mats domain_size st) = ts_mesh st
   \<and> (volume_markers (tagging_pass eps mats domain_size st),
       surface_markers (tagging_pass eps mats domain_size st))
     = subdomains_1D eps (ts_mesh st) mats domain_size"
  by (simp add: tagging_pass_eq subdomains_1D_eq)

section \<open>Properties of subdomains and check_borders\<close>

lemma max_py_eq: "vs \<noteq> [] \<Longrightarrow> max_py vs = Inr (Max (set vs))"
proof -
  assume "vs \<noteq> []"
  then obtain x xs where vs: "vs = x # xs" by (cases vs) auto
  have "Max (set (x # xs)) = fold max xs x" by (rule Max.set_eq_fold)
  with vs show ?thesis by (simp add: max_py_def)
qed

text \<open>
  C10. In the branch that tags the mesh itself (no \<open>cells_file\<close>, no pre-built cell
  MeshFunction): when the configuration has a non-empty \<open>vertices\<close> list, the size handed to
  border validation (run only for more than one material) and to the tagger is the maximum
  of the vertices, and the \<open>size\<close> field has no influence on the result; when \<open>vertices\<close> is
  absent the size handed to both is the \<open>size\<close> field.
\<close>

theorem subdomains_size:
  assumes "cells_file mp = None"
    and "\<not> (\<exists>vals. meshfunction_cells mp = Some (MeshFunctionObj vals))"
  shows
    "(vertices mp = Some vs \<and> vs \<noteq> [] \<longrightarrow>
        subdomains eps rd m \<lparr>mesh_parameters = mp, materials = mats\<rparr> =
          (case (if 1 < length mats then check_borders (Max (set vs)) mats else Inr True) of
             Inl e \<Rightarrow> Inl e
           | Inr ok \<Rightarrow>
               Inr (MeshFunctionObj (fst (subdomains_1D eps m mats (Max (set vs)))),
                    MeshFunctionObj (snd (subdomains_1D eps m mats (Max (set vs))))))
        \<and> subdomains eps rd m \<lparr>mesh_parameters = mp\<lparr>size_param := sz\<rparr>, materials = mats\<rparr> =
          subdomains eps rd m \<lparr>mesh_parameters = mp, materials = mats\<rparr>)
     \<and> (vertices mp = None \<and> size_param mp = Some s \<longrightarrow>
        subdomains eps rd m \<lparr>mesh_parameters = mp, materials = mats\<rparr> =
          (case (if 1 < length mats then check_borders s mats else Inr True) of
             Inl e \<Rightarrow> Inl e
           | Inr ok \<Rightarrow>
               Inr (MeshFunctionObj (fst (subdomains_1D eps m mats s)),
                    MeshFunctionObj (snd (subdomains_1D eps m mats s)))))"
proof -
  from assms(2) have nf: "\<not> (meshfunction_cells mp \<noteq> None \<and> is_MeshFunctionObj (the (meshfunction_cells mp)))"
    by (auto simp: py_obj.is_MeshFunctionObj_def)
  have branch: "subdomains eps rd m \<lparr>mesh_parameters = mp', materials = mats\<rparr> =
      (case (if vertices mp' \<noteq> None then max_py (the (vertices mp'))
             else (case size_param mp' of None \<Rightarrow> Inl (KeyError ''size'') | Some s \<Rightarrow> Inr s)) of
         Inl e \<Rightarrow> Inl e
       | Inr domain_size \<Rightarrow>
           (case (if 1 < length mats then check_borders domain_size mats else Inr True) of
              Inl e \<Rightarrow> Inl e
            | Inr ok \<Rightarrow>
                Inr (MeshFunctionObj (fst (subdomains_1D eps m mats domain_size)),
                     MeshFunctionObj (snd (subdomains_1D eps m mats domain_size)))))"
    if "cells_file mp' = None" "meshfunction_cells mp' = meshfunction_cells mp" for mp'
  proof -
    have nf': "(meshfunction_cells mp' \<noteq> None \<and> is_MeshFunctionObj (the (meshfunction_cells mp')))
                 = False"
      using that(2) nf by simp
    have sel: "mesh_parameters \<lparr>mesh_parameters = mp', materials = mats\<rparr> = mp'"
      "materials \<lparr>mesh_parameters = mp', materials = mats\<rparr> = mats" by simp_all
    show ?thesis
      unfolding subdomains_def Let_def sel nf'
      by (simp add: that(1) split_beta cong: sum.case_cong)
  qed
  show ?thesis
  proof (intro conjI impI)
    assume v: "vertices mp = Some vs \<and> vs \<noteq> []"
    then have mx: "max_py (the (vertices mp)) = Inr (Max (set vs))" by (simp add: max_py_eq)
    show r: "subdomains eps rd m \<lparr>mesh_parameters = mp, materials = mats\<rparr> =
          (case (if 1 < length mats then check_borders (Max (set vs)) mats else Inr True) of
             Inl e \<Rightarrow> Inl e
           | Inr ok \<Rightarrow>
               Inr (MeshFunctionObj (fst (subdomains_1D eps m mats (Max (set vs)))),
                    MeshFunctionObj (snd (subdomains_1D eps m mats (Max (set vs))))))"
      using v mx assms(1) by (simp add: branch [of mp])
    have "subdomains eps rd m \<lparr>mesh_parameters = mp\<lparr>size_param := sz\<rparr>, materials = mats\<rparr> =
          (case (if 1 < length mats then check_borders (Max (set vs)) mats else Inr True) of
             Inl e \<Rightarrow> Inl e
           | Inr ok \<Rightarrow>
               Inr (MeshFunctionObj (fst (subdomains_1D eps m mats (Max (set vs)))),
                    MeshFunctionObj (snd (subdomains_1D eps m mats (Max (set vs))))))"
      using v mx assms(1) by (simp add: branch [of "mp\<lparr>size_param := sz\<rparr>"])
    with r show "subdomains eps rd m \<lparr>mesh_parameters = mp\<lparr>size_param := sz\<rparr>, materials = mats\<rparr> =
          subdomains eps rd m \<lparr>mesh_parameters = mp, materials = mats\<rparr>" by simp
  next
    assume "vertices mp = None \<and> size_param mp = Some s"
    then show "subdomains eps rd m \<lparr>mesh_parameters = mp, materials = mats\<rparr> =
          (case (if 1 < length mats then check_borders s mats else Inr True) of
             Inl e \<Rightarrow> Inl e
           | Inr ok \<Rightarrow>
               Inr (MeshFunctionObj (fst (subdomains_1D eps m mats s)),
                    MeshFunctionObj (snd (subdomains_1D eps m mats s))))"
      using assms(1) by (simp add: branch [of mp])
  qed
qed

theorem subdomains_size_witness:
  "subdomains (3 / 10 ^ 16) (\<lambda>m c f. Inl RuntimeError)
     \<lparr>coordinates = [0, 1, 2], cells = [(0, 1), (1, 2)]\<rparr>
     \<lparr>mesh_parameters = (refine_config 3 1 [])\<lparr>vertices := Some [0, 1, 2]\<rparr>,
      materials = [\<lparr>mat_id = 1, borders = (PyInt 0, PyInt 1)\<rparr>,
                   \<lparr>mat_id = 2, borders = (PyInt 1, PyInt 2)\<rparr>]\<rparr>
     = Inr (MeshFunctionObj [1, 2], MeshFunctionObj [1, 0, 2])
   \<and> subdomains (3 / 10 ^ 16) (\<lambda>m c f. Inl RuntimeError)
     \<lparr>coordinates = [0, 1, 2], cells = [(0, 1), (1, 2)]\<rparr>
     \<lparr>mesh_parameters = refine_config 3 1 [],
      materials = [\<lparr>mat_id = 1, borders = (PyInt 0, PyInt 1)\<rparr>,
                   \<lparr>mat_id = 2, borders = (PyInt 1, PyInt 2)\<rparr>]\<rparr>
     = Inl (ValueError ''Borders don't match with size'')"
proof -
  let ?m = "\<lparr>coordinates = [0, 1, 2], cells = [(0, 1), (1, 2)]\<rparr>"
  let ?mats = "[\<lparr>mat_id = 1, borders = (PyInt 0, PyInt 1)\<rparr>,
                \<lparr>mat_id = 2, borders = (PyInt 1, PyInt 2)\<rparr>]"
  let ?mp = "(refine_config 3 1 [])\<lparr>vertices := Some [0, 1, 2]\<rparr>"
  let ?mq = "refine_config 3 1 []"
  let ?rd = "\<lambda>(m::mesh) (c::string) (f::string). (Inl RuntimeError :: error + nat list \<times> nat list)"
  have mx: "Max (set [0, 1, 2 :: real]) = 2" by simp
  have cb2: "check_borders 2 ?mats = Inr True" by (simp add: check_borders_def)
  have cb1: "check_borders 1 ?mats = Inl (ValueError ''Borders don't match with size'')"
    by (simp add: check_borders_def)
  have tg: "subdomains_1D (3 / 10 ^ 16) ?m ?mats 2 = ([1, 2], [1, 0, 2])"
    by (simp add: subdomains_1D_def tagging_pass_def mark_cell_def mark_facet_def near_def
        num_cells_def midpoint_def Let_def upt_rec numeral_nat)
  have p1: "cells_file ?mp = None" "\<not> (\<exists>vals. meshfunction_cells ?mp = Some (MeshFunctionObj vals))"
    "vertices ?mp = Some [0, 1, 2] \<and> [0, 1, 2 :: real] \<noteq> []"
    by (simp_all add: refine_config_def)
  have q1: "cells_file ?mq = None" "\<not> (\<exists>vals. meshfunction_cells ?mq = Some (MeshFunctionObj vals))"
    "vertices ?mq = None \<and> size_param ?mq = Some 1"
    by (simp_all add: refine_config_def)
  have "subdomains (3 / 10 ^ 16) ?rd ?m \<lparr>mesh_parameters = ?mp, materials = ?mats\<rparr>
          = Inr (MeshFunctionObj [1, 2], MeshFunctionObj [1, 0, 2])"
    using subdomains_size [OF p1(1,2), of "[0, 1, 2]" "3 / 10 ^ 16" ?rd ?m ?mats] p1(3)
    by (simp only: mx cb2 tg) simp
  moreover have "subdomains (3 / 10 ^ 16) ?rd ?m \<lparr>mesh_parameters = ?mq, materials = ?mats\<rparr>
          = Inl (ValueError ''Borders don't match with size'')"
    using subdomains_size [OF q1(1,2), of _ "3 / 10 ^ 16" ?rd ?m ?mats _ 1] q1(3)
    by (simp only: cb1) simp
  ultimately show ?thesis by blast
qed

lemma check_borders_spec_example_pass:
  "check_borders 2 [\<lparr>mat_id = 1, borders = (PyInt 0, PyInt 1)\<rparr>,
                    \<lparr>mat_id = 2, borders = (PyInt 1, PyInt 2)\<rparr>] = Inr True"
  by (simp add: check_borders_def)

lemma check_borders_spec_example_gap:
  "check_borders 2 [\<lparr>mat_id = 1, borders = (PyInt 0, PyInt 1)\<rparr>,
                    \<lparr>mat_id = 2, borders = (PyFloat (3 / 2), PyInt 2)\<rparr>]
     = Inl (ValueError ''Borders don't match to each other'')"
  by (simp add: check_borders_def)

text \<open>
  C2. The validation fails on a partition that satisfies all three conditions of the claim
  when its first lower bound is the float \<open>0.0\<close>: line 231 tests \<^verbatim>\<open>is not 0\<close>, the identity
  with the integer object 0, not the value. Materials with borders \<open>[0.0, 1.0]\<close> and
  \<open>[1.0, 2.0]\<close> and \<open>size = 2.0\<close> begin at zero, match and end at \<open>size\<close>, and are rejected with
  the begin-at-zero error.
\<close>

theorem check_borders_float_zero_rejected:
  "check_borders 2 [\<lparr>mat_id = 1, borders = (PyFloat 0, PyFloat 1)\<rparr>,
                    \<lparr>mat_id = 2, borders = (PyFloat 1, PyFloat 2)\<rparr>]
     = Inl (ValueError ''Borders don't begin at zero'')"
  by (simp add: check_borders_def)

end
